theory Spec2Isabelle
  imports Main
begin

section \<open>C values\<close>

text \<open>
  The model follows \<^verbatim>\<open>src/baton.c\<close> function by function. A C string is a
  \<^typ>\<open>string\<close>; a \<^verbatim>\<open>char *\<close> that the code itself may leave \<^verbatim>\<open>NULL\<close>
  is a \<^typ>\<open>string option\<close>. String lengths, array indices and counters that only
  count upwards from zero are natural numbers; \<^verbatim>\<open>int\<close> fields that a remote reply
  can fill with any value (row count, column count, continuation index, status) are
  \<^typ>\<open>int\<close>.

  An execution that does not come back to its caller is the value \<open>Inl\<close> of a
  \<open>fault\<close>. \<open>Read_Past_End\<close>, \<open>Write_Past_End\<close> and \<open>Int_Overflow\<close> are executions
  that C leaves undefined: an index outside an array, a string read that runs off its
  buffer, a product of two \<^verbatim>\<open>int\<close> values outside the range of \<^verbatim>\<open>int\<close>. These three
  do not stand for a test made by the program: the source contains none, and the fault
  only names the place where the C execution stops having a meaning.
  \<open>Assertion_Failed\<close> is the \<^verbatim>\<open>abort\<close> of an \<^verbatim>\<open>assert\<close> whose condition is false
  (assertions are compiled in). The assertions on the results of \<^verbatim>\<open>calloc\<close>,
  \<^verbatim>\<open>json_array\<close> and \<^verbatim>\<open>json_object\<close> fail only when memory runs out; memory is
  unbounded here and they are left out.
\<close>

datatype fault = Read_Past_End | Write_Past_End | Int_Overflow | Assertion_Failed

definition INT_MAX :: int where
  "INT_MAX = 2147483647"

definition NUL :: char where
  "NUL = CHR 0x00"

definition quote :: char where
  "quote = CHR 0x27"

text \<open>
  \<open>c_string_at buf off\<close> is what \<^verbatim>\<open>%s\<close> or \<^verbatim>\<open>json_string\<close> read from the pointer
  \<^verbatim>\<open>buf + off\<close>: the characters up to the first NUL of the buffer.
\<close>

definition c_string_at :: "string \<Rightarrow> nat \<Rightarrow> fault + string" where
  "c_string_at buf off =
     (if NUL \<in> set (drop off buf)
      then Inr (takeWhile (\<lambda>c. c \<noteq> NUL) (drop off buf))
      else Inl Read_Past_End)"

section \<open>The UTF-8 check of jansson\<close>

text \<open>
  jansson takes a string or an object key only when it is well-formed UTF-8. Its check
  reads the first byte of a character for the length of the sequence (no continuation
  byte, no C0 or C1, nothing from F5 on), then the continuation bytes, and refuses a
  value above 10FFFF, a surrogate and an overlong form. A character is a byte here,
  \<open>of_char\<close> gives its value.
\<close>

definition utf8_check_first :: "char \<Rightarrow> nat" where
  "utf8_check_first byte =
     (let u = (of_char byte :: nat)
      in if u < 0x80 then 1
         else if u \<le> 0xBF then 0
         else if u = 0xC0 \<or> u = 0xC1 then 0
         else if u \<le> 0xDF then 2
         else if u \<le> 0xEF then 3
         else if u \<le> 0xF4 then 4
         else 0)"

text \<open>The loop over the continuation bytes; \<open>None\<close> when a byte is not one.\<close>

fun utf8_continuation :: "nat \<Rightarrow> string \<Rightarrow> nat option" where
  "utf8_continuation v [] = Some v"
| "utf8_continuation v (b # bs) =
     (if (of_char b :: nat) < 0x80 \<or> 0xBF < (of_char b :: nat) then None
      else utf8_continuation (v * 64 + (of_char b :: nat) mod 64) bs)"

definition utf8_check_full :: "string \<Rightarrow> nat \<Rightarrow> bool" where
  "utf8_check_full buffer count =
     (case buffer of
        [] \<Rightarrow> False
      | b # bs \<Rightarrow>
          if count = 2 \<or> count = 3 \<or> count = 4 then
            (case utf8_continuation
                    (if count = 2 then (of_char b :: nat) mod 32
                     else if count = 3 then (of_char b :: nat) mod 16
                     else (of_char b :: nat) mod 8) bs of
               None \<Rightarrow> False
             | Some v \<Rightarrow>
                 if 0x10FFFF < v then False
                 else if 0xD800 \<le> v \<and> v \<le> 0xDFFF then False
                 else if (count = 2 \<and> v < 0x80) \<or> (count = 3 \<and> v < 0x800)
                         \<or> (count = 4 \<and> v < 0x10000) then False
                 else True)
          else False)"

fun utf8_check_string :: "string \<Rightarrow> bool" where
  "utf8_check_string [] = True"
| "utf8_check_string (b # bs) =
     (if utf8_check_first b = 0 then False
      else if 1 < utf8_check_first b then
        (if length (b # bs) < utf8_check_first b then False
         else if utf8_check_full (take (utf8_check_first b) (b # bs)) (utf8_check_first b)
         then utf8_check_string (drop (utf8_check_first b - 1) bs)
         else False)
      else utf8_check_string bs)"

section \<open>JSON values (jansson)\<close>

text \<open>
  A JSON object keeps its keys in insertion order. The container operations of
  jansson return 0 on success and -1 on failure; they fail on a \<^verbatim>\<open>NULL\<close> argument
  or when memory runs out. Memory is unbounded here, the status is kept so that the
  callers' tests on it are part of the model. \<^verbatim>\<open>json_string\<close> returns \<^verbatim>\<open>NULL\<close> for
  text that is not UTF-8, and \<^verbatim>\<open>json_object_set_new\<close> releases the value, leaves the
  object as it is and returns -1 for a key that is not UTF-8.
\<close>

datatype json = JString string | JArray "json list" | JObject "(string \<times> json) list"

definition json_string :: "string \<Rightarrow> json option" where
  "json_string s = (if utf8_check_string s then Some (JString s) else None)"

fun json_object_set_new_nocheck ::
  "(string \<times> json) list \<Rightarrow> string \<Rightarrow> json \<Rightarrow> (string \<times> json) list" where
  "json_object_set_new_nocheck [] k v = [(k, v)]"
| "json_object_set_new_nocheck ((k', v') # kvs) k v =
     (if k' = k then (k, v) # kvs else (k', v') # json_object_set_new_nocheck kvs k v)"

definition json_object_set_new ::
  "(string \<times> json) list \<Rightarrow> string \<Rightarrow> json \<Rightarrow> int \<times> (string \<times> json) list" where
  "json_object_set_new object key v =
     (if utf8_check_string key then (0, json_object_set_new_nocheck object key v)
      else (- 1, object))"

text \<open>
  \<^verbatim>\<open>json_pack\<close> for the formats \<^verbatim>\<open>{s:s}\<close> and \<^verbatim>\<open>{s:s, s:s}\<close>: the pairs of a key and
  a string in the order of the arguments. The result is \<^verbatim>\<open>NULL\<close> when a key or a
  string is not UTF-8.
\<close>

fun json_pack_object :: "(string \<times> string) list \<Rightarrow> (string \<times> json) list \<Rightarrow> json option" where
  "json_pack_object [] object = Some (JObject object)"
| "json_pack_object ((key, s) # rest) object =
     (if utf8_check_string key then
        (case json_string s of
           None \<Rightarrow> None
         | Some v \<Rightarrow> json_pack_object rest (json_object_set_new_nocheck object key v))
      else None)"

definition json_array_append_new :: "json list \<Rightarrow> json \<Rightarrow> int \<times> json list" where
  "json_array_append_new array v = (0, array @ [v])"

definition json_array_extend :: "json list \<Rightarrow> json list option \<Rightarrow> int \<times> json list" where
  "json_array_extend array other =
     (case other of None \<Rightarrow> (- 1, array) | Some xs \<Rightarrow> (0, array @ xs))"

section \<open>Catalogue types (iRODS client library)\<close>

text \<open>
  The column identifiers are macros of the client library; only their identity matters.
\<close>

datatype column =
    COL_COLL_NAME
  | COL_DATA_NAME
  | COL_META_DATA_ATTR_NAME
  | COL_META_DATA_ATTR_VALUE
  | COL_META_DATA_ATTR_UNITS
  | COL_META_COLL_ATTR_NAME
  | COL_META_COLL_ATTR_VALUE
  | COL_META_COLL_ATTR_UNITS

text \<open>The status of a query without results, from \<^verbatim>\<open>rodsErrorTable.h\<close>.\<close>

definition CAT_NO_ROWS_FOUND :: int where
  "CAT_NO_ROWS_FOUND = - 808000"

text \<open>
  \<^verbatim>\<open>inxIvalPair_t\<close> (the selected columns) and \<^verbatim>\<open>inxValPair_t\<close> (the conditions):
  a used length and two arrays. The arrays are lists as long as their allocation; a
  slot that \<^verbatim>\<open>calloc\<close> zeroed and nothing wrote yet is \<open>None\<close>. The C structures
  share the field names \<^verbatim>\<open>len\<close>, \<^verbatim>\<open>inx\<close>, \<^verbatim>\<open>value\<close> and \<^verbatim>\<open>continueInx\<close>; here the
  fields of the selection carry the prefix \<open>sel_\<close>, those of the conditions the
  prefix \<open>cond_\<close>, and the continuation index is \<open>in_continueInx\<close> in the descriptor
  and \<open>out_continueInx\<close> in the reply.
\<close>

record inxIvalPair =
  sel_len :: int
  sel_inx :: "column list"
  sel_value :: "int list"

record inxValPair =
  cond_len :: nat
  cond_inx :: "column option list"
  cond_value :: "string option list"

record genQueryInp =
  maxRows :: int
  in_continueInx :: int
  condInput_len :: nat
  selectInp :: inxIvalPair
  sqlCondInp :: inxValPair

text \<open>
  One column of a reply: \<open>len\<close> is the stride, an \<^verbatim>\<open>int\<close>, and \<open>buf\<close> the \<^verbatim>\<open>value\<close>
  buffer holding the rows' NUL-terminated strings one stride apart.
\<close>

record sqlResult_t =
  len :: int
  buf :: string

record genQueryOut =
  rowCnt :: int
  attriCnt :: int
  out_continueInx :: int
  sqlResult :: "sqlResult_t list"

text \<open>
  A resolved path, as \<^verbatim>\<open>rodsPath_t\<close> gives it to this file.
\<close>

datatype objType =
    UNKNOWN_OBJ_T | DATA_OBJ_T | COLL_OBJ_T | UNKNOWN_FILE_T | LOCAL_FILE_T | LOCAL_DIR_T
  | NO_INPUT_T

datatype objStat = UNKNOWN_ST | NOT_EXIST_ST | EXIST_ST

record rodsPath =
  objType :: objType
  objState :: objStat
  inPath :: string
  outPath :: string

text \<open>
  The ten positional arguments of the remote mutation call. \<open>arg0\<close> is the only one
  that this file can set to \<^verbatim>\<open>NULL\<close>.
\<close>

record modAVUMetadataInp =
  arg0 :: "string option"
  arg1 :: string
  arg2 :: string
  arg3 :: string
  arg4 :: string
  arg5 :: string
  arg6 :: string
  arg7 :: string
  arg8 :: string
  arg9 :: string

text \<open>
  The remote catalogue is outside the program. A connection holds what it answers:
  \<open>replies conn k q\<close> is the status and the \<^verbatim>\<open>genQueryOut_t\<close> that the \<open>k\<close>-th
  \<^verbatim>\<open>rcGenQuery\<close> call on the connection gives when it is sent the descriptor \<open>q\<close>,
  and \<open>calls conn\<close> counts the calls made so far. \<open>mod_status conn a\<close> is the status
  with which the catalogue answers the mutation request \<open>a\<close>, and \<open>mod_sent conn\<close>
  lists the requests submitted so far, oldest first.
\<close>

record reply =
  status :: int
  out :: genQueryOut

record rcComm =
  replies :: "nat \<Rightarrow> genQueryInp \<Rightarrow> reply"
  calls :: nat
  mod_status :: "modAVUMetadataInp \<Rightarrow> int"
  mod_sent :: "modAVUMetadataInp list"

definition rcGenQuery :: "rcComm \<Rightarrow> genQueryInp \<Rightarrow> reply \<times> rcComm" where
  "rcGenQuery conn query_input =
     (replies conn (calls conn) query_input, conn\<lparr>calls := Suc (calls conn)\<rparr>)"

definition rcModAVUMetadata :: "rcComm \<Rightarrow> modAVUMetadataInp \<Rightarrow> int \<times> rcComm" where
  "rcModAVUMetadata conn anon_args =
     (mod_status conn anon_args, conn\<lparr>mod_sent := mod_sent conn @ [anon_args]\<rparr>)"

section \<open>Result row serializer: \<^verbatim>\<open>make_json_objects\<close>\<close>

text \<open>
  The offset \<^verbatim>\<open>row * sqlResult[i].len\<close> of a cell in its column buffer, a product of
  two \<^verbatim>\<open>int\<close> values: undefined outside the range of \<^verbatim>\<open>int\<close>, and a read before the
  buffer when it is negative.
\<close>

definition cell_offset :: "nat \<Rightarrow> int \<Rightarrow> fault + nat" where
  "cell_offset row stride =
     (if int row * stride < - INT_MAX - 1 \<or> INT_MAX < int row * stride then Inl Int_Overflow
      else if int row * stride < 0 then Inl Read_Past_End
      else Inr (nat (int row * stride)))"

text \<open>
  The inner loop over the columns \<open>i\<close> of one row: the cell text starts at
  \<^verbatim>\<open>sqlResult[i].value + row * sqlResult[i].len\<close> and is stored under \<^verbatim>\<open>labels[i]\<close>.
  The label array comes without a length, the loop bound is the reply's \<^verbatim>\<open>attriCnt\<close>.
  \<^verbatim>\<open>assert(jvalue)\<close> stops the program when \<^verbatim>\<open>json_string\<close> has refused the text;
  the status of \<^verbatim>\<open>json_object_set_new\<close> is not looked at.
\<close>

fun encode_columns ::
  "genQueryOut \<Rightarrow> string list \<Rightarrow> nat \<Rightarrow> nat list \<Rightarrow> (string \<times> json) list
     \<Rightarrow> fault + (string \<times> json) list" where
  "encode_columns query_output labels row [] jrow = Inr jrow"
| "encode_columns query_output labels row (i # is) jrow =
     (if length (sqlResult query_output) \<le> i then Inl Read_Past_End
      else if length labels \<le> i then Inl Read_Past_End
      else
        (case cell_offset row (len (sqlResult query_output ! i)) of
           Inl f \<Rightarrow> Inl f
         | Inr off \<Rightarrow>
        (case c_string_at (buf (sqlResult query_output ! i)) off of
           Inl f \<Rightarrow> Inl f
         | Inr result \<Rightarrow>
        (case json_string result of
           None \<Rightarrow> Inl Assertion_Failed
         | Some jvalue \<Rightarrow>
             encode_columns query_output labels row is
               (snd (json_object_set_new jrow (labels ! i) jvalue))))))"

text \<open>The outer loop over the rows; \<open>None\<close> is the \<^verbatim>\<open>NULL\<close> of the error exit.\<close>

fun encode_rows ::
  "genQueryOut \<Rightarrow> string list \<Rightarrow> nat list \<Rightarrow> json list \<Rightarrow> fault + json list option" where
  "encode_rows query_output labels [] array = Inr (Some array)"
| "encode_rows query_output labels (row # rows) array =
     (case encode_columns query_output labels row [0..<nat (attriCnt query_output)] [] of
        Inl f \<Rightarrow> Inl f
      | Inr jrow \<Rightarrow>
          (case json_array_append_new array (JObject jrow) of
             (st, array') \<Rightarrow>
               if st \<noteq> 0 then Inr None
               else encode_rows query_output labels rows array'))"

definition make_json_objects :: "genQueryOut \<Rightarrow> string list \<Rightarrow> fault + json list option" where
  "make_json_objects query_output labels =
     encode_rows query_output labels [0..<nat (rowCnt query_output)] []"

section \<open>Chunked query executor: \<^verbatim>\<open>do_query\<close>\<close>

text \<open>
  \<open>Query_Rows\<close> is the array that \<^verbatim>\<open>do_query\<close> returns. \<open>Query_Failed chunk_num st\<close>
  is its error exit: the accumulated array is released, \<^verbatim>\<open>NULL\<close> is returned, and
  the chunk number and the status \<open>st\<close> are what the exit reports through the log.
\<close>

datatype query_result = Query_Rows "json list" | Query_Failed nat int

text \<open>
  The \<^verbatim>\<open>while\<close> loop. It has no bound of its own, so the function is partial and
  \<open>None\<close> is the run that never leaves the loop.
\<close>

partial_function (option) do_query_loop ::
  "rcComm \<Rightarrow> genQueryInp \<Rightarrow> genQueryOut \<Rightarrow> string list \<Rightarrow> nat \<Rightarrow> json list
     \<Rightarrow> (fault + query_result \<times> rcComm) option" where
  "do_query_loop conn query_input query_output labels chunk_num results =
     (if chunk_num = 0 \<or> 0 < out_continueInx query_output then
        (case rcGenQuery conn query_input of
           (r, conn') \<Rightarrow>
             if status r = CAT_NO_ROWS_FOUND then
               do_query_loop conn' query_input (out r) labels chunk_num results
             else if status r \<noteq> 0 then
               Some (Inr (Query_Failed chunk_num (status r), conn'))
             else
               (case make_json_objects (out r) labels of
                  Inl f \<Rightarrow> Some (Inl f)
                | Inr None \<Rightarrow> Some (Inr (Query_Failed chunk_num (status r), conn'))
                | Inr (Some chunk) \<Rightarrow>
                    (case json_array_extend results (Some chunk) of
                       (st, results') \<Rightarrow>
                         if st \<noteq> 0 then
                           Some (Inr (Query_Failed (Suc chunk_num) st, conn'))
                         else
                           do_query_loop conn'
                             (query_input\<lparr>in_continueInx := out_continueInx (out r)\<rparr>)
                             (out r) labels (Suc chunk_num) results')))
      else Some (Inr (Query_Rows results, conn)))"

declare do_query_loop.simps [code]

definition do_query ::
  "rcComm \<Rightarrow> genQueryInp \<Rightarrow> genQueryOut \<Rightarrow> string list
     \<Rightarrow> (fault + query_result \<times> rcComm) option" where
  "do_query conn query_input query_output labels =
     do_query_loop conn query_input query_output labels 0 []"

section \<open>Query descriptor builder and predicate compiler\<close>

text \<open>
  \<^verbatim>\<open>make_query_input\<close>. The ceiling \<^verbatim>\<open>MAX_NUM_CONDITIONALS\<close> is a macro of the
  header \<^verbatim>\<open>baton.h\<close> and is a parameter here: it is the length of the two condition
  arrays. The statement \<^verbatim>\<open>special_select_ops[0] = 0\<close> writes into an allocation of
  \<^verbatim>\<open>num_columns\<close> elements, and the copy loop reads \<^verbatim>\<open>columns[i]\<close> for every
  \<open>i\<close> below \<^verbatim>\<open>num_columns\<close>.
\<close>

definition make_query_input :: "nat \<Rightarrow> int \<Rightarrow> int \<Rightarrow> column list \<Rightarrow> fault + genQueryInp" where
  "make_query_input MAX_NUM_CONDITIONALS max_rows num_columns columns =
     (if length columns < nat num_columns then Inl Read_Past_End
      else if num_columns < 1 then Inl Write_Past_End
      else Inr \<lparr>maxRows = max_rows, in_continueInx = 0, condInput_len = 0,
                selectInp = \<lparr>sel_len = num_columns,
                             sel_inx = take (nat num_columns) columns,
                             sel_value = replicate (nat num_columns) 0\<rparr>,
                sqlCondInp = \<lparr>cond_len = 0,
                              cond_inx = replicate MAX_NUM_CONDITIONALS None,
                              cond_value = replicate MAX_NUM_CONDITIONALS None\<rparr>\<rparr>)"

text \<open>A condition; \<open>qvalue\<close> is the field \<^verbatim>\<open>value\<close> of \<^verbatim>\<open>query_cond\<close>.\<close>

record query_cond =
  column :: column
  operator :: string
  qvalue :: string

text \<open>
  \<^verbatim>\<open>snprintf(expr, expr_size, "%s '%s'", op, name)\<close>: the formatted text, cut to the
  \<open>expr_size - 1\<close> characters that fit before the terminating NUL.
\<close>

definition snprintf_clause :: "nat \<Rightarrow> string \<Rightarrow> string \<Rightarrow> string" where
  "snprintf_clause expr_size op name =
     take (expr_size - 1) (op @ [CHR '' '', quote] @ name @ [quote])"

text \<open>
  The loop of \<^verbatim>\<open>add_query_conds\<close> over the indices \<open>i\<close>. The source compares
  \<^verbatim>\<open>current_index\<close> with nothing before it writes the two arrays.
\<close>

fun add_query_conds_loop ::
  "genQueryInp \<Rightarrow> query_cond list \<Rightarrow> nat list \<Rightarrow> fault + genQueryInp" where
  "add_query_conds_loop query_input conds [] = Inr query_input"
| "add_query_conds_loop query_input conds (i # is) =
     (if length conds \<le> i then Inl Read_Past_End
      else
        (let op = operator (conds ! i);
             name = qvalue (conds ! i);
             expr_size = length name + length op + 3 + 1;
             expr = snprintf_clause expr_size op name;
             current_index = cond_len (sqlCondInp query_input)
         in if length (cond_inx (sqlCondInp query_input)) \<le> current_index
               \<or> length (cond_value (sqlCondInp query_input)) \<le> current_index
            then Inl Write_Past_End
            else add_query_conds_loop
                   (query_input\<lparr>sqlCondInp :=
                      \<lparr>cond_len = Suc current_index,
                       cond_inx = (cond_inx (sqlCondInp query_input))
                                    [current_index := Some (column (conds ! i))],
                       cond_value = (cond_value (sqlCondInp query_input))
                                    [current_index := Some expr]\<rparr>\<rparr>)
                   conds is))"

definition add_query_conds ::
  "genQueryInp \<Rightarrow> int \<Rightarrow> query_cond list \<Rightarrow> fault + genQueryInp" where
  "add_query_conds query_input num_conds conds =
     add_query_conds_loop query_input conds [0..<nat num_conds]"

section \<open>Entity classifier: \<^verbatim>\<open>dirname\<close> and \<^verbatim>\<open>basename\<close>\<close>

text \<open>
  The two functions of \<^verbatim>\<open>libgen.h\<close>, as POSIX describes them: trailing slashes do
  not count, a path of slashes only is the root, a path without a slash has the parent
  \<^verbatim>\<open>.\<close>, and the parent of a top-level name is \<^verbatim>\<open>/\<close>. The source calls them on
  two copies of the path, so that neither call sees what the other wrote. Where POSIX
  leaves the result to the implementation, for a parent that is written with two
  slashes only, the parent is the single slash here.
\<close>

definition slash :: char where
  "slash = CHR ''/''"

definition strip_slashes :: "string \<Rightarrow> string" where
  "strip_slashes p = rev (dropWhile (\<lambda>c. c = slash) (rev p))"

definition basename :: "string \<Rightarrow> string" where
  "basename path =
     (if path = [] then ''.''
      else
        (let p = strip_slashes path
         in if p = [] then [slash]
            else rev (takeWhile (\<lambda>c. c \<noteq> slash) (rev p))))"

definition dirname :: "string \<Rightarrow> string" where
  "dirname path =
     (if path = [] then ''.''
      else
        (let p = strip_slashes path;
             d = rev (dropWhile (\<lambda>c. c \<noteq> slash) (rev p))
         in if p = [] then [slash]
            else if d = [] then ''.''
            else if strip_slashes d = [] then [slash]
            else strip_slashes d))"

text \<open>
  \<^verbatim>\<open>data_object_path_to_json\<close> returns what \<^verbatim>\<open>json_pack("{s:s, s:s}", ...)\<close> returns:
  the object with the two keys in this order, or \<^verbatim>\<open>NULL\<close> (\<open>None\<close>), for which its
  caller tests.
\<close>

definition data_object_path_to_json :: "string \<Rightarrow> json option" where
  "data_object_path_to_json path =
     (let coll_name = dirname path;
          data_name = basename path
      in json_pack_object [(''collection'', coll_name), (''data_object'', data_name)] [])"

definition collection_path_to_json :: "string \<Rightarrow> json option" where
  "collection_path_to_json path = json_pack_object [(''collection'', path)] []"

section \<open>The four query shapes\<close>


definition prepare_col_list ::
  "genQueryInp \<Rightarrow> rodsPath \<Rightarrow> string option \<Rightarrow> fault + genQueryInp" where
  "prepare_col_list query_input rods_path attr_name =
     (let path = outPath rods_path;
          cn = \<lparr>column = COL_COLL_NAME, operator = ''='', qvalue = path\<rparr>;
          num_conds = 1
      in case attr_name of
           Some a \<Rightarrow>
             add_query_conds query_input (num_conds + 1)
               [cn, \<lparr>column = COL_META_COLL_ATTR_NAME, operator = ''='', qvalue = a\<rparr>]
         | None \<Rightarrow> add_query_conds query_input num_conds [cn])"

definition prepare_obj_search ::
  "genQueryInp \<Rightarrow> string \<Rightarrow> string \<Rightarrow> fault + genQueryInp" where
  "prepare_obj_search query_input attr_name attr_value =
     (let an = \<lparr>column = COL_META_DATA_ATTR_NAME, operator = ''='', qvalue = attr_name\<rparr>;
          av = \<lparr>column = COL_META_DATA_ATTR_VALUE, operator = ''='', qvalue = attr_value\<rparr>;
          num_conds = 2
      in add_query_conds query_input num_conds [an, av])"

definition prepare_col_search ::
  "genQueryInp \<Rightarrow> string \<Rightarrow> string \<Rightarrow> fault + genQueryInp" where
  "prepare_col_search query_input attr_name attr_value =
     (let an = \<lparr>column = COL_META_COLL_ATTR_NAME, operator = ''='', qvalue = attr_name\<rparr>;
          av = \<lparr>column = COL_META_COLL_ATTR_VALUE, operator = ''='', qvalue = attr_value\<rparr>;
          num_conds = 2
      in add_query_conds query_input num_conds [an, av])"

section \<open>\<^verbatim>\<open>search_metadata\<close>\<close>

text \<open>
  The pointer that \<^verbatim>\<open>do_query\<close> returns: the array, or \<^verbatim>\<open>NULL\<close> after its error
  exit. \<^verbatim>\<open>json_array_extend\<close> leaves \<open>results\<close> as it is when it is given
  \<^verbatim>\<open>NULL\<close>, and \<^verbatim>\<open>search_metadata\<close> does not look at its status.
\<close>

fun json_ptr :: "query_result \<Rightarrow> json list option" where
  "json_ptr (Query_Rows rows) = Some rows"
| "json_ptr (Query_Failed chunk_num st) = None"

text \<open>
  \<open>query_output\<close> is the local pointer that the source passes to \<^verbatim>\<open>do_query\<close>
  without giving it a value; it is a parameter here.
\<close>

definition search_metadata ::
  "nat \<Rightarrow> rcComm \<Rightarrow> genQueryOut \<Rightarrow> string \<Rightarrow> string \<Rightarrow> (fault + json list \<times> rcComm) option" where
  "search_metadata MAX_NUM_CONDITIONALS conn query_output attr_name attr_value =
     (let num_columns = 1;
          max_rows = 10;
          labels = [''collection'', ''data_object''];
          columns = [COL_COLL_NAME, COL_DATA_NAME];
          results = []
      in case make_query_input MAX_NUM_CONDITIONALS max_rows num_columns columns of
           Inl f \<Rightarrow> Some (Inl f)
         | Inr query_input \<Rightarrow>
        (case prepare_col_search query_input attr_name attr_value of
           Inl f \<Rightarrow> Some (Inl f)
         | Inr query_input \<Rightarrow>
        (case do_query conn query_input query_output labels of
           None \<Rightarrow> None
         | Some (Inl f) \<Rightarrow> Some (Inl f)
         | Some (Inr (collections, conn)) \<Rightarrow>
        (case json_array_extend results (json_ptr collections) of
           (st, results) \<Rightarrow>
        (case make_query_input MAX_NUM_CONDITIONALS max_rows (num_columns + 1) columns of
           Inl f \<Rightarrow> Some (Inl f)
         | Inr query_input \<Rightarrow>
        (case prepare_obj_search query_input attr_name attr_value of
           Inl f \<Rightarrow> Some (Inl f)
         | Inr query_input \<Rightarrow>
        (case do_query conn query_input query_output labels of
           None \<Rightarrow> None
         | Some (Inl f) \<Rightarrow> Some (Inl f)
         | Some (Inr (data_objects, conn)) \<Rightarrow>
        (case json_array_extend results (json_ptr data_objects) of
           (st, results) \<Rightarrow> Some (Inr (results, conn))))))))))"

section \<open>Metadata mutation mapper\<close>

text \<open>
  The enumeration \<^verbatim>\<open>metadata_op\<close> and the macros \<^verbatim>\<open>META_ADD_NAME\<close> and
  \<^verbatim>\<open>META_REM_NAME\<close> are declared in \<^verbatim>\<open>baton.h\<close>. The two names are parameters.
  \<open>META_OTHER\<close> is any value of the enumeration type besides its two enumerators,
  which is what the \<^verbatim>\<open>default\<close> branch of \<^verbatim>\<open>metadata_op_name\<close> receives.
  The fields of \<^verbatim>\<open>mod_metadata_in\<close> carry the prefix \<open>m_\<close>.
\<close>

datatype metadata_op = META_ADD | META_REM | META_OTHER

record mod_metadata_in =
  m_op :: metadata_op
  m_type_arg :: string
  m_rods_path :: rodsPath
  m_attr_name :: string
  m_attr_value :: string
  m_attr_units :: string

definition metadata_op_name :: "string \<Rightarrow> string \<Rightarrow> metadata_op \<Rightarrow> string option" where
  "metadata_op_name META_ADD_NAME META_REM_NAME op =
     (case op of
        META_ADD \<Rightarrow> Some META_ADD_NAME
      | META_REM \<Rightarrow> Some META_REM_NAME
      | META_OTHER \<Rightarrow> None)"

definition map_mod_args :: "string \<Rightarrow> string \<Rightarrow> mod_metadata_in \<Rightarrow> modAVUMetadataInp" where
  "map_mod_args META_ADD_NAME META_REM_NAME inp =
     \<lparr>arg0 = metadata_op_name META_ADD_NAME META_REM_NAME (m_op inp),
      arg1 = m_type_arg inp,
      arg2 = outPath (m_rods_path inp),
      arg3 = m_attr_name inp,
      arg4 = m_attr_value inp,
      arg5 = m_attr_units inp,
      arg6 = [],
      arg7 = [],
      arg8 = [],
      arg9 = []\<rparr>"

text \<open>
  \<^verbatim>\<open>modify_metadata\<close> returns the status on both of its exits; the exit after a
  negative status only adds log lines.
\<close>

definition modify_metadata ::
  "string \<Rightarrow> string \<Rightarrow> rcComm \<Rightarrow> rodsPath \<Rightarrow> metadata_op \<Rightarrow> string \<Rightarrow> string \<Rightarrow> string
     \<Rightarrow> int \<times> rcComm" where
  "modify_metadata META_ADD_NAME META_REM_NAME conn rods_path op attr_name attr_value attr_units =
     (case (case objType rods_path of
              DATA_OBJ_T \<Rightarrow> Some ''-d''
            | COLL_OBJ_T \<Rightarrow> Some ''-C''
            | _ \<Rightarrow> None) of
        None \<Rightarrow> (- 1, conn)
      | Some type_arg \<Rightarrow>
          (let named_args = \<lparr>m_op = op, m_type_arg = type_arg, m_rods_path = rods_path,
                             m_attr_name = attr_name, m_attr_value = attr_value,
                             m_attr_units = attr_units\<rparr>;
               anon_args = map_mod_args META_ADD_NAME META_REM_NAME named_args
           in rcModAVUMetadata conn anon_args))"

section \<open>Notions used to state the properties\<close>


text \<open>The ten positional arguments of a mutation request, in protocol order.\<close>

definition arg_vector :: "modAVUMetadataInp \<Rightarrow> string option list" where
  "arg_vector a =
     [arg0 a, Some (arg1 a), Some (arg2 a), Some (arg3 a), Some (arg4 a), Some (arg5 a),
      Some (arg6 a), Some (arg7 a), Some (arg8 a), Some (arg9 a)]"

text \<open>
  The text of row \<open>row\<close> in column \<open>i\<close> of a page, the record of a row, and the
  records of a page in row order.
\<close>

definition cell :: "genQueryOut \<Rightarrow> nat \<Rightarrow> nat \<Rightarrow> string" where
  "cell p row i =
     takeWhile (\<lambda>c. c \<noteq> NUL)
       (drop (nat (int row * len (sqlResult p ! i))) (buf (sqlResult p ! i)))"

definition row_record :: "string list \<Rightarrow> genQueryOut \<Rightarrow> nat \<Rightarrow> json" where
  "row_record labels p row =
     JObject (foldl (\<lambda>jrow i. snd (json_object_set_new jrow (labels ! i) (JString (cell p row i))))
                [] [0..<nat (attriCnt p)])"

definition page_records :: "string list \<Rightarrow> genQueryOut \<Rightarrow> json list" where
  "page_records labels p = map (row_record labels p) [0..<nat (rowCnt p)]"

text \<open>
  A page that \<^verbatim>\<open>make_json_objects\<close> can read with the given labels: the row count is
  not negative, there are a column and a label for every index below \<^verbatim>\<open>attriCnt\<close>,
  and every cell has an offset from 0 to \<^verbatim>\<open>INT_MAX\<close> and is a NUL-terminated string
  of well-formed UTF-8 inside its column buffer.
\<close>

definition wf_cell :: "genQueryOut \<Rightarrow> nat \<Rightarrow> nat \<Rightarrow> bool" where
  "wf_cell p row i \<longleftrightarrow>
     0 \<le> int row * len (sqlResult p ! i)
     \<and> int row * len (sqlResult p ! i) \<le> INT_MAX
     \<and> NUL \<in> set (drop (nat (int row * len (sqlResult p ! i))) (buf (sqlResult p ! i)))
     \<and> utf8_check_string (cell p row i)"

definition wf_page :: "string list \<Rightarrow> genQueryOut \<Rightarrow> bool" where
  "wf_page labels p \<longleftrightarrow>
     0 \<le> rowCnt p
     \<and> nat (attriCnt p) \<le> length (sqlResult p)
     \<and> nat (attriCnt p) \<le> length labels
     \<and> list_all (\<lambda>i. list_all (\<lambda>row. wf_cell p row i) [0..<nat (rowCnt p)])
         [0..<nat (attriCnt p)]"



text \<open>The rows that a caller of \<^verbatim>\<open>do_query\<close> can append: none after the error exit.\<close>

fun rows_of :: "query_result \<Rightarrow> json list" where
  "rows_of (Query_Rows rows) = rows"
| "rows_of (Query_Failed chunk_num st) = []"

text \<open>
  Path normalization: a path is read as absolute or relative together with its
  components, where empty components (repeated or trailing slashes) and the
  component \<^verbatim>\<open>.\<close> do not count. \<open>path_parts cur p\<close> lists the components of \<open>p\<close>
  after the characters \<open>cur\<close> of a component already begun.
\<close>

fun path_parts :: "string \<Rightarrow> string \<Rightarrow> string list" where
  "path_parts cur [] = (if cur = [] then [] else [cur])"
| "path_parts cur (c # cs) =
     (if c = slash then (if cur = [] then path_parts [] cs else cur # path_parts [] cs)
      else path_parts (cur @ [c]) cs)"

definition normal_path :: "string \<Rightarrow> bool \<times> string list" where
  "normal_path p = (take 1 p = [slash], filter (\<lambda>part. part \<noteq> ''.'') (path_parts [] p))"

section \<open>Example inputs\<close>

definition example_path :: rodsPath where
  "example_path =
     \<lparr>objType = DATA_OBJ_T, objState = EXIST_ST, inPath = ''f.txt'',
      outPath = ''/zone/home/f.txt''\<rparr>"

text \<open>A new descriptor with room for four conditions.\<close>

definition example_query :: genQueryInp where
  "example_query =
     \<lparr>maxRows = 10, in_continueInx = 0, condInput_len = 0,
      selectInp = \<lparr>sel_len = 1, sel_inx = [COL_COLL_NAME], sel_value = [0]\<rparr>,
      sqlCondInp = \<lparr>cond_len = 0, cond_inx = [None, None, None, None],
                    cond_value = [None, None, None, None]\<rparr>\<rparr>"

text \<open>
  Two pages of one column, with three rows and two rows, strides 4 and 3; only the
  first page has a continuation index above zero.
\<close>

definition example_page1 :: genQueryOut where
  "example_page1 =
     \<lparr>rowCnt = 3, attriCnt = 1, out_continueInx = 1,
      sqlResult = [\<lparr>len = 4, buf = ''/a'' @ [NUL, NUL] @ ''/b'' @ [NUL, NUL] @ ''/c'' @ [NUL, NUL]\<rparr>]\<rparr>"

definition example_page2 :: genQueryOut where
  "example_page2 =
     \<lparr>rowCnt = 2, attriCnt = 1, out_continueInx = 0,
      sqlResult = [\<lparr>len = 3, buf = ''/d'' @ [NUL] @ ''/e'' @ [NUL]\<rparr>]\<rparr>"

text \<open>
  A page of one column and one row whose text is the single byte E9, which is not
  UTF-8 (the letter e with an acute accent in Latin-1).
\<close>

definition example_page_latin1 :: genQueryOut where
  "example_page_latin1 =
     \<lparr>rowCnt = 1, attriCnt = 1, out_continueInx = 0,
      sqlResult = [\<lparr>len = 3, buf = [CHR 0xE9, NUL, NUL]\<rparr>]\<rparr>"

text \<open>A page of two columns and one row.\<close>

definition example_page3 :: genQueryOut where
  "example_page3 =
     \<lparr>rowCnt = 1, attriCnt = 2, out_continueInx = 0,
      sqlResult = [\<lparr>len = 3, buf = ''/d'' @ [NUL]\<rparr>, \<lparr>len = 2, buf = ''x'' @ [NUL]\<rparr>]\<rparr>"

text \<open>
  A catalogue that answers the first call with page 1, the second with page 2, and
  every later call with the status -1.
\<close>

definition example_conn :: rcComm where
  "example_conn =
     \<lparr>replies = (\<lambda>k q. if k = 0 then \<lparr>status = 0, out = example_page1\<rparr>
                       else if k = 1 then \<lparr>status = 0, out = example_page2\<rparr>
                       else \<lparr>status = - 1, out = example_page2\<rparr>),
      calls = 0, mod_status = (\<lambda>a. 0), mod_sent = []\<rparr>"

text \<open>
  A catalogue in which the query matches nothing: it answers every call with
  \<^verbatim>\<open>CAT_NO_ROWS_FOUND\<close>.
\<close>

definition no_rows_conn :: rcComm where
  "no_rows_conn =
     \<lparr>replies = (\<lambda>k q. \<lparr>status = CAT_NO_ROWS_FOUND,
                          out = \<lparr>rowCnt = 0, attriCnt = 0, out_continueInx = 0, sqlResult = []\<rparr>\<rparr>),
      calls = 0, mod_status = (\<lambda>a. 0), mod_sent = []\<rparr>"

text \<open>
  A catalogue that answers every query with one row and as many columns as the
  descriptor selects, all with the text \<^verbatim>\<open>/z\<close>.
\<close>

definition one_row_conn :: rcComm where
  "one_row_conn =
     \<lparr>replies = (\<lambda>k q. \<lparr>status = 0,
                          out = \<lparr>rowCnt = 1, attriCnt = sel_len (selectInp q),
                                 out_continueInx = 0,
                                 sqlResult = replicate (nat (sel_len (selectInp q)))
                                               \<lparr>len = 3, buf = ''/z'' @ [NUL]\<rparr>\<rparr>\<rparr>),
      calls = 0, mod_status = (\<lambda>a. 0), mod_sent = []\<rparr>"




text \<open>
  The descriptors that \<^verbatim>\<open>search_metadata\<close> builds for the attribute \<^verbatim>\<open>color\<close> and
  the value \<^verbatim>\<open>red\<close> under a ceiling of four: \<open>example_query\<close> and \<open>example_query2\<close>
  are the new descriptors of one and of two columns, the other two carry the
  conditions.
\<close>

definition example_query2 :: genQueryInp where
  "example_query2 =
     \<lparr>maxRows = 10, in_continueInx = 0, condInput_len = 0,
      selectInp = \<lparr>sel_len = 2, sel_inx = [COL_COLL_NAME, COL_DATA_NAME], sel_value = [0, 0]\<rparr>,
      sqlCondInp = \<lparr>cond_len = 0, cond_inx = [None, None, None, None],
                    cond_value = [None, None, None, None]\<rparr>\<rparr>"

definition example_col_search :: genQueryInp where
  "example_col_search =
     example_query\<lparr>sqlCondInp :=
       \<lparr>cond_len = 2,
        cond_inx = [Some COL_META_COLL_ATTR_NAME, Some COL_META_COLL_ATTR_VALUE, None, None],
        cond_value = [Some (''= '' @ [quote] @ ''color'' @ [quote]),
                      Some (''= '' @ [quote] @ ''red'' @ [quote]), None, None]\<rparr>\<rparr>"

definition example_obj_search :: genQueryInp where
  "example_obj_search =
     example_query2\<lparr>sqlCondInp :=
       \<lparr>cond_len = 2,
        cond_inx = [Some COL_META_DATA_ATTR_NAME, Some COL_META_DATA_ATTR_VALUE, None, None],
        cond_value = [Some (''= '' @ [quote] @ ''color'' @ [quote]),
                      Some (''= '' @ [quote] @ ''red'' @ [quote]), None, None]\<rparr>\<rparr>"

text \<open>
  A catalogue in which no collection matches the search and one data object does: it
  answers every query that selects one column with \<^verbatim>\<open>CAT_NO_ROWS_FOUND\<close> and every
  other query with one row of two columns.
\<close>

definition objects_only_conn :: rcComm where
  "objects_only_conn =
     \<lparr>replies = (\<lambda>k q. if sel_len (selectInp q) = 1
                       then \<lparr>status = CAT_NO_ROWS_FOUND,
                             out = \<lparr>rowCnt = 0, attriCnt = 0, out_continueInx = 0,
                                    sqlResult = []\<rparr>\<rparr>
                       else \<lparr>status = 0, out = example_page3\<rparr>),
      calls = 0, mod_status = (\<lambda>a. 0), mod_sent = []\<rparr>"

text \<open>
  A catalogue that answers the first call with the page that is not UTF-8, here with
  the continuation index 1, and every later call with the status -816000.
\<close>

definition latin1_conn :: rcComm where
  "latin1_conn =
     \<lparr>replies = (\<lambda>k q. if k = 0
                       then \<lparr>status = 0, out = example_page_latin1\<lparr>out_continueInx := 1\<rparr>\<rparr>
                       else \<lparr>status = - 816000, out = example_page_latin1\<rparr>),
      calls = 0, mod_status = (\<lambda>a. 0), mod_sent = []\<rparr>"

section \<open>Properties\<close>

subsection \<open>Predicate compiler\<close>

lemma snprintf_clause_exact:
  "snprintf_clause (length name + length op + 3 + 1) op name =
     op @ [CHR '' '', quote] @ name @ [quote]"
  by (simp add: snprintf_clause_def)

lemma map_index_nth: "map (\<lambda>i. f (xs ! i)) [0..<length xs] = map f xs"
proof -
  have "map (\<lambda>i. f (xs ! i)) [0..<length xs] = map f (map ((!) xs) [0..<length xs])"
    by (simp add: comp_def)
  then show ?thesis by (simp only: map_nth)
qed

lemma add_query_conds_loop_closed:
  assumes "cond_len (sqlCondInp q) + length is \<le> length (cond_inx (sqlCondInp q))"
    and "cond_len (sqlCondInp q) + length is \<le> length (cond_value (sqlCondInp q))"
    and "\<forall>i\<in>set is. i < length conds"
  shows "add_query_conds_loop q conds is =
           Inr (q\<lparr>sqlCondInp :=
                  \<lparr>cond_len = cond_len (sqlCondInp q) + length is,
                   cond_inx = take (cond_len (sqlCondInp q)) (cond_inx (sqlCondInp q))
                     @ map (\<lambda>i. Some (column (conds ! i))) is
                     @ drop (cond_len (sqlCondInp q) + length is) (cond_inx (sqlCondInp q)),
                   cond_value = take (cond_len (sqlCondInp q)) (cond_value (sqlCondInp q))
                     @ map (\<lambda>i. Some (operator (conds ! i) @ [CHR '' '', quote]
                                        @ qvalue (conds ! i) @ [quote])) is
                     @ drop (cond_len (sqlCondInp q) + length is)
                         (cond_value (sqlCondInp q))\<rparr>\<rparr>)"
  using assms
proof (induction "is" arbitrary: q)
  case Nil
  then show ?case by simp
next
  case (Cons i "is")
  let ?n = "cond_len (sqlCondInp q)"
  have n1: "?n < length (cond_inx (sqlCondInp q))"
    and n2: "?n < length (cond_value (sqlCondInp q))"
    using Cons.prems by auto
  show ?case
    using Cons.prems n1 n2
    apply (simp add: Let_def snprintf_clause_exact[simplified] Cons.IH)
    apply (simp add: upd_conv_take_nth_drop Cons_nth_drop_Suc)
    done
qed

lemma add_query_conds_closed:
  assumes "cond_len (sqlCondInp q) + length conds \<le> length (cond_inx (sqlCondInp q))"
    and "cond_len (sqlCondInp q) + length conds \<le> length (cond_value (sqlCondInp q))"
  shows "add_query_conds q (int (length conds)) conds =
           Inr (q\<lparr>sqlCondInp :=
                  \<lparr>cond_len = cond_len (sqlCondInp q) + length conds,
                   cond_inx = take (cond_len (sqlCondInp q)) (cond_inx (sqlCondInp q))
                     @ map (\<lambda>c. Some (column c)) conds
                     @ drop (cond_len (sqlCondInp q) + length conds) (cond_inx (sqlCondInp q)),
                   cond_value = take (cond_len (sqlCondInp q)) (cond_value (sqlCondInp q))
                     @ map (\<lambda>c. Some (operator c @ '' '' @ [quote] @ qvalue c @ [quote])) conds
                     @ drop (cond_len (sqlCondInp q) + length conds)
                         (cond_value (sqlCondInp q))\<rparr>\<rparr>)"
  using assms
  by (simp add: add_query_conds_def add_query_conds_loop_closed
        map_index_nth [where f = "\<lambda>c. Some (column c)"]
        map_index_nth [where f = "\<lambda>c. Some (operator c @ CHR '' '' # quote # qvalue c @ [quote])"])






subsection \<open>Metadata mutation mapper\<close>

text \<open>
  C4. For an operation ADD or REMOVE on a data object or a collection,
  \<^verbatim>\<open>modify_metadata\<close> submits one request, and its argument vector has the ten
  entries: the name of the operation, \<^verbatim>\<open>-d\<close> or \<^verbatim>\<open>-C\<close>, the canonical path, the
  attribute, the value, the units, and four empty strings.
\<close>

theorem modify_metadata_argument_vector:
  assumes "op \<in> {META_ADD, META_REM}"
    and "objType rods_path \<in> {DATA_OBJ_T, COLL_OBJ_T}"
  shows "map arg_vector
           (mod_sent (snd (modify_metadata META_ADD_NAME META_REM_NAME conn rods_path op
                             attr_name attr_value attr_units))) =
         map arg_vector (mod_sent conn) @
           [[Some (if op = META_ADD then META_ADD_NAME else META_REM_NAME),
             Some (if objType rods_path = DATA_OBJ_T then ''-d'' else ''-C''),
             Some (outPath rods_path), Some attr_name, Some attr_value, Some attr_units,
             Some '''', Some '''', Some '''', Some '''']]"
  using assms
  by (auto simp: modify_metadata_def map_mod_args_def metadata_op_name_def
        rcModAVUMetadata_def arg_vector_def)

theorem modify_metadata_argument_vector_witness:
  "META_ADD \<in> {META_ADD, META_REM}
   \<and> objType example_path \<in> {DATA_OBJ_T, COLL_OBJ_T}
   \<and> map arg_vector
        (mod_sent (snd (modify_metadata ''add'' ''rm'' example_conn example_path META_ADD
                          ''color'' ''red'' ''''))) =
       [[Some ''add'', Some ''-d'', Some ''/zone/home/f.txt'', Some ''color'', Some ''red'',
         Some '''', Some '''', Some '''', Some '''', Some '''']]"
  using modify_metadata_argument_vector [of META_ADD example_path "''add''" "''rm''"
      example_conn "''color''" "''red''" "''''"]
  by (simp add: example_path_def example_conn_def)

subsection \<open>List-on-object query builder\<close>




subsection \<open>Result row serializer\<close>

lemma utf8_ascii:
  "list_all (\<lambda>c. (of_char c :: nat) < 0x80) s \<Longrightarrow> utf8_check_string s"
  by (induction s) (simp_all add: utf8_check_first_def)

lemma wf_cell_read:
  assumes "wf_cell p row i"
  shows "cell_offset row (len (sqlResult p ! i)) = Inr (nat (int row * len (sqlResult p ! i)))"
    and "c_string_at (buf (sqlResult p ! i)) (nat (int row * len (sqlResult p ! i))) =
           Inr (cell p row i)"
    and "json_string (cell p row i) = Some (JString (cell p row i))"
  using assms
  by (simp_all add: wf_cell_def cell_offset_def c_string_at_def cell_def json_string_def
        INT_MAX_def)

lemma encode_columns_foldl:
  assumes "\<forall>i\<in>set is. i < length (sqlResult p) \<and> i < length labels \<and> wf_cell p row i"
  shows "encode_columns p labels row is jrow =
           Inr (foldl (\<lambda>jrow i. snd (json_object_set_new jrow (labels ! i)
                                        (JString (cell p row i))))
                  jrow is)"
  using assms
  by (induction "is" arbitrary: jrow) (simp_all add: wf_cell_read)

lemma wf_page_cells:
  assumes "wf_page labels p" and "row < nat (rowCnt p)" and "i < nat (attriCnt p)"
  shows "i < length (sqlResult p)" and "i < length labels" and "wf_cell p row i"
  using assms by (auto simp: wf_page_def list_all_iff)

lemma encode_columns_wf:
  assumes "wf_page labels p" and "row < nat (rowCnt p)"
  shows "encode_columns p labels row [0..<nat (attriCnt p)] [] =
           Inr (case row_record labels p row of JObject kvs \<Rightarrow> kvs)"
  using assms wf_page_cells [OF assms]
  by (simp add: encode_columns_foldl row_record_def)

lemma encode_rows_wf:
  assumes "wf_page labels p" and "\<forall>row\<in>set rows. row < nat (rowCnt p)"
  shows "encode_rows p labels rows array = Inr (Some (array @ map (row_record labels p) rows))"
  using assms
proof (induction rows arbitrary: array)
  case Nil
  then show ?case by simp
next
  case (Cons row rows)
  then show ?case
    by (simp add: encode_columns_wf json_array_append_new_def row_record_def)
qed

lemma make_json_objects_wf:
  assumes "wf_page labels p"
  shows "make_json_objects p labels = Inr (Some (page_records labels p))"
  using assms by (simp add: make_json_objects_def page_records_def encode_rows_wf)


lemma json_object_set_new_fresh:
  "utf8_check_string k \<Longrightarrow> k \<notin> fst ` set kvs \<Longrightarrow>
     snd (json_object_set_new kvs k v) = kvs @ [(k, v)]"
  by (induction kvs) (auto simp: json_object_set_new_def)

lemma foldl_set_new_distinct:
  assumes "distinct (map fst kvs @ map ((!) labels) is)"
    and "\<forall>i\<in>set is. utf8_check_string (labels ! i)"
  shows "foldl (\<lambda>jrow i. snd (json_object_set_new jrow (labels ! i) (f i))) kvs is =
           kvs @ map (\<lambda>i. (labels ! i, f i)) is"
  using assms
proof (induction "is" arbitrary: kvs)
  case Nil
  then show ?case by simp
next
  case (Cons i "is")
  have fresh: "labels ! i \<notin> fst ` set kvs" and valid: "utf8_check_string (labels ! i)"
    using Cons.prems by auto
  have "distinct (map fst (kvs @ [(labels ! i, f i)]) @ map ((!) labels) is)"
    and "\<forall>i\<in>set is. utf8_check_string (labels ! i)"
    using Cons.prems by auto
  from Cons.IH [OF this] show ?case
    by (simp add: json_object_set_new_fresh [OF valid fresh])
qed

lemma row_record_distinct:
  assumes "distinct labels" and "nat (attriCnt p) = length labels"
    and "\<forall>l\<in>set labels. utf8_check_string l"
  shows "row_record labels p row =
           JObject (zip labels (map (\<lambda>i. JString (cell p row i)) [0..<length labels]))"
proof -
  have d: "distinct (map fst ([] :: (string \<times> json) list) @ map ((!) labels) [0..<length labels])"
    using assms(1) by (simp add: map_nth)
  have v: "\<forall>i\<in>set [0..<length labels]. utf8_check_string (labels ! i)"
    using assms(3) by simp
  have "map (\<lambda>i. (labels ! i, JString (cell p row i))) [0..<length labels] =
          zip (map ((!) labels) [0..<length labels]) (map (\<lambda>i. JString (cell p row i)) [0..<length labels])"
    by (simp add: zip_map_map [where xs = "[0..<length labels]" and ys = "[0..<length labels]", simplified] zip_same_conv_map)
  then show ?thesis
    using foldl_set_new_distinct [OF d v, of "\<lambda>i. JString (cell p row i)"] assms(2)
    by (simp add: row_record_def map_nth)
qed

text \<open>
  A page with text that is not UTF-8 stops the program at \<^verbatim>\<open>assert(jvalue)\<close>.
\<close>

lemma make_json_objects_not_utf8:
  "make_json_objects example_page_latin1 [''collection''] = Inl Assertion_Failed"
  by code_simp

text \<open>
  C8 (as amended). For a page that can be read, with as many labels as the page has
  columns, every label well-formed UTF-8 and no label twice, \<^verbatim>\<open>make_json_objects\<close>
  returns one record for each row, in row order, and the record of a row pairs every
  label, in label order, with the row's text in the column of the same index.
\<close>

theorem make_json_objects_records:
  assumes "wf_page labels p"
    and "nat (attriCnt p) = length labels"
    and "distinct labels"
    and "\<forall>l\<in>set labels. utf8_check_string l"
  shows "make_json_objects p labels =
           Inr (Some (map (\<lambda>row. JObject (zip labels
                                     (map (\<lambda>i. JString (cell p row i)) [0..<length labels])))
                        [0..<nat (rowCnt p)]))"
  using assms
  by (simp add: make_json_objects_wf page_records_def row_record_distinct)

theorem make_json_objects_records_witness:
  "wf_page [''collection'', ''data_object''] example_page3
   \<and> nat (attriCnt example_page3) = length [''collection'', ''data_object'']
   \<and> distinct [''collection'', ''data_object'']
   \<and> utf8_check_string ''collection''
   \<and> utf8_check_string ''data_object''
   \<and> make_json_objects example_page3 [''collection'', ''data_object''] =
       Inr (Some [JObject [(''collection'', JString ''/d''), (''data_object'', JString ''x'')]])"
proof -
  have w: "wf_page [''collection'', ''data_object''] example_page3"
    by code_simp
  have n: "nat (attriCnt example_page3) = length [''collection'', ''data_object'']"
    by code_simp
  have u: "utf8_check_string ''collection''" "utf8_check_string ''data_object''"
    by code_simp+
  have c: "map (\<lambda>row. JObject (zip [''collection'', ''data_object'']
                  (map (\<lambda>i. JString (cell example_page3 row i))
                     [0..<length [''collection'', ''data_object'']])))
             [0..<nat (rowCnt example_page3)] =
           [JObject [(''collection'', JString ''/d''), (''data_object'', JString ''x'')]]"
    by code_simp
  show ?thesis
    using make_json_objects_records [of "[''collection'', ''data_object'']" example_page3]
      w n u
    unfolding c by simp
qed

text \<open>
  C8 as stated fails. \<^verbatim>\<open>make_json_objects\<close> is given no label count and compares
  nothing: with two labels and a page of one column it returns records of one entry
  each and leaves the second label unused (as \<^verbatim>\<open>search_metadata\<close> calls it for the
  collection rows), and with two equal labels on a page of two columns the second
  value takes the place of the first.
\<close>

theorem make_json_objects_mismatch_counterexample:
  "make_json_objects example_page2 [''collection'', ''data_object''] =
     Inr (Some [JObject [(''collection'', JString ''/d'')],
                JObject [(''collection'', JString ''/e'')]])
   \<and> make_json_objects example_page3 [''name'', ''name''] =
       Inr (Some [JObject [(''name'', JString ''x'')]])"
  by code_simp

subsection \<open>Chunked query executor\<close>


lemma do_query_loop_page:
  assumes "chunk_num = 0 \<or> 0 < out_continueInx qo"
    and "replies conn (calls conn) q = \<lparr>status = 0, out = p\<rparr>"
    and "wf_page labels p"
  shows "do_query_loop conn q qo labels chunk_num results =
           do_query_loop (conn\<lparr>calls := Suc (calls conn)\<rparr>)
             (q\<lparr>in_continueInx := out_continueInx p\<rparr>) p labels (Suc chunk_num)
             (results @ page_records labels p)"
  using assms
  by (subst do_query_loop.simps)
    (simp add: rcGenQuery_def make_json_objects_wf json_array_extend_def CAT_NO_ROWS_FOUND_def)

lemma do_query_loop_exit:
  assumes "chunk_num \<noteq> 0" and "out_continueInx qo \<le> 0"
  shows "do_query_loop conn q qo labels chunk_num results = Some (Inr (Query_Rows results, conn))"
  using assms by (subst do_query_loop.simps) simp





text \<open>
  The branch for \<^verbatim>\<open>CAT_NO_ROWS_FOUND\<close> changes neither the descriptor nor the chunk
  number. While no chunk has been read and the catalogue answers this descriptor with
  this status, the loop goes round.
\<close>

lemma do_query_loop_no_rows:
  assumes "do_query_loop conn q qo labels chunk_num results = Some y"
  shows "chunk_num = 0 \<longrightarrow> (\<forall>k. status (replies conn k q) = CAT_NO_ROWS_FOUND) \<longrightarrow> False"
proof (rule do_query_loop.raw_induct
        [where P = "\<lambda>conn q qo labels chunk_num results y.
                      chunk_num = 0 \<longrightarrow> (\<forall>k. status (replies conn k q) = CAT_NO_ROWS_FOUND)
                        \<longrightarrow> False",
         OF _ assms], intro impI, goal_cases)
  case (1 f conn q qo labels chunk_num results y)
  from 1(2,3,4)
  have "f (conn\<lparr>calls := Suc (calls conn)\<rparr>) q (out (replies conn (calls conn) q)) labels 0 results
          = Some y"
    by (simp add: rcGenQuery_def)
  from 1(1) [OF this] 1(4) show False by simp
qed

lemma do_query_no_rows_forever:
  assumes "\<forall>k. status (replies conn k q) = CAT_NO_ROWS_FOUND"
  shows "do_query conn q qo labels = None"
proof (cases "do_query conn q qo labels")
  case None
  then show ?thesis .
next
  case (Some y)
  then have False
    using do_query_loop_no_rows [of conn q qo labels 0 "[]" y] assms
    by (simp add: do_query_def)
  then show ?thesis ..
qed

text \<open>
  C1, evaluated where the code departs from it. The catalogue \<open>no_rows_conn\<close> answers
  every call with \<^verbatim>\<open>CAT_NO_ROWS_FOUND\<close>. The branch for this status only writes a log
  line: it neither leaves the loop nor counts a chunk, the loop test \<^verbatim>\<open>chunk_num == 0\<close>
  holds again, and the same query is sent again. \<^verbatim>\<open>do_query\<close> returns nothing; the
  value \<open>None\<close> is the run that stays in the loop.
\<close>

theorem do_query_no_rows_never_returns:
  "do_query no_rows_conn q query_output labels = None"
  by (rule do_query_no_rows_forever) (simp add: no_rows_conn_def)






text \<open>
  When a page has text that is not UTF-8, \<^verbatim>\<open>do_query\<close> stops at the assertion of
  \<^verbatim>\<open>make_json_objects\<close> and makes no further call.
\<close>

lemma do_query_not_utf8:
  "do_query latin1_conn example_query query_output [''collection''] =
     Some (Inl Assertion_Failed)"
proof -
  have m: "make_json_objects (example_page_latin1\<lparr>out_continueInx := 1\<rparr>) [''collection''] =
             Inl Assertion_Failed"
    by code_simp
  show ?thesis
    unfolding do_query_def
    by (subst do_query_loop.simps)
      (simp add: rcGenQuery_def latin1_conn_def m CAT_NO_ROWS_FOUND_def)
qed

subsection \<open>\<^verbatim>\<open>search_metadata\<close>\<close>

lemma encode_columns_keys:
  assumes "encode_columns p labels row is jrow = Inr jrow'"
    and "distinct (map fst jrow @ map ((!) labels) is)"
    and "\<forall>i\<in>set is. utf8_check_string (labels ! i)"
  shows "\<exists>ts. length ts = length is
           \<and> jrow' = jrow @ zip (map ((!) labels) is) (map JString ts)"
  using assms
proof (induction "is" arbitrary: jrow)
  case Nil
  then show ?case by simp
next
  case (Cons i "is")
  from Cons.prems(1) obtain cell_text where
    rec: "encode_columns p labels row is
            (snd (json_object_set_new jrow (labels ! i) (JString cell_text))) = Inr jrow'"
    by (auto simp: json_string_def split: if_splits sum.splits)
  have fresh: "labels ! i \<notin> fst ` set jrow" and valid: "utf8_check_string (labels ! i)"
    using Cons.prems(2,3) by auto
  have set_new: "snd (json_object_set_new jrow (labels ! i) (JString cell_text)) =
                   jrow @ [(labels ! i, JString cell_text)]"
    by (rule json_object_set_new_fresh [OF valid fresh])
  have "distinct (map fst (jrow @ [(labels ! i, JString cell_text)]) @ map ((!) labels) is)"
    and "\<forall>i\<in>set is. utf8_check_string (labels ! i)"
    using Cons.prems(2,3) by auto
  from Cons.IH [OF rec [unfolded set_new] this]
  obtain ts where ts: "length ts = length is"
    "jrow' = (jrow @ [(labels ! i, JString cell_text)]) @ zip (map ((!) labels) is) (map JString ts)"
    by blast
  show ?case
    by (rule exI [of _ "cell_text # ts"]) (simp add: ts)
qed

lemma encode_rows_keys:
  assumes "encode_rows p labels rows array = Inr (Some rs)"
    and "(distinct (map ((!) labels) [0..<nat (attriCnt p)])
           \<and> list_all utf8_check_string (map ((!) labels) [0..<nat (attriCnt p)]))"
    and "\<forall>x\<in>set array. P x"
    and "\<And>ts. length ts = nat (attriCnt p) \<Longrightarrow>
           P (JObject (zip (map ((!) labels) [0..<nat (attriCnt p)]) (map JString ts)))"
  shows "\<forall>x\<in>set rs. P x"
  using assms(1,3)
proof (induction rows arbitrary: array)
  case Nil
  then show ?case by simp
next
  case (Cons row rows)
  from Cons.prems(1) obtain jrow where
    cols: "encode_columns p labels row [0..<nat (attriCnt p)] [] = Inr jrow"
    and rec: "encode_rows p labels rows (array @ [JObject jrow]) = Inr (Some rs)"
    by (auto simp: json_array_append_new_def split: sum.splits)
  have d: "distinct (map fst ([] :: (string \<times> json) list)
                       @ map ((!) labels) [0..<nat (attriCnt p)])"
    and v: "\<forall>i\<in>set [0..<nat (attriCnt p)]. utf8_check_string (labels ! i)"
    using assms(2) by (auto simp: list_all_iff)
  from encode_columns_keys [OF cols d v]
  obtain ts where "length ts = nat (attriCnt p)"
    "jrow = zip (map ((!) labels) [0..<nat (attriCnt p)]) (map JString ts)"
    by auto
  then have "P (JObject jrow)"
    using assms(4) by simp
  then show ?case
    using Cons.prems(2) by (intro Cons.IH [OF rec]) auto
qed

lemma make_json_objects_keys:
  assumes "make_json_objects p labels = Inr (Some rs)"
    and "(distinct (map ((!) labels) [0..<nat (attriCnt p)])
           \<and> list_all utf8_check_string (map ((!) labels) [0..<nat (attriCnt p)]))"
    and "\<And>ts. length ts = nat (attriCnt p) \<Longrightarrow>
           P (JObject (zip (map ((!) labels) [0..<nat (attriCnt p)]) (map JString ts)))"
  shows "\<forall>x\<in>set rs. P x"
proof (rule encode_rows_keys [where P = P and array = "[]" and p = p and labels = labels])
  show "encode_rows p labels [0..<nat (rowCnt p)] [] = Inr (Some rs)"
    using assms(1) by (simp add: make_json_objects_def)
qed (use assms(2,3) in auto)

text \<open>
  What \<^verbatim>\<open>do_query\<close> returns, when it returns: the connection still has the same
  catalogue, and when the catalogue answers with as many columns as the descriptor
  selects, every record has the first labels as its keys, in order, with text values.
\<close>

lemma do_query_loop_returns:
  assumes "do_query_loop conn q qo labels chunk_num results = Some y"
  shows "\<forall>r conn'. y = Inr (r, conn') \<longrightarrow>
           replies conn' = replies conn
           \<and> ((\<forall>k q'. status (replies conn k q') = 0 \<longrightarrow>
                   attriCnt (out (replies conn k q')) = sel_len (selectInp q'))
                \<longrightarrow> nat (sel_len (selectInp q)) = n
                \<longrightarrow> (distinct (map ((!) labels) [0..<n])
                     \<and> list_all utf8_check_string (map ((!) labels) [0..<n]))
                \<longrightarrow> (\<forall>x\<in>set results. \<exists>ts. length ts = n
                       \<and> x = JObject (zip (map ((!) labels) [0..<n]) (map JString ts)))
                \<longrightarrow> (\<forall>x\<in>set (rows_of r). \<exists>ts. length ts = n
                       \<and> x = JObject (zip (map ((!) labels) [0..<n]) (map JString ts))))"
proof (rule do_query_loop.raw_induct
    [where P = "\<lambda>conn q qo labels chunk_num results y.
       \<forall>r conn'. y = Inr (r, conn') \<longrightarrow>
           replies conn' = replies conn
           \<and> ((\<forall>k q'. status (replies conn k q') = 0 \<longrightarrow>
                   attriCnt (out (replies conn k q')) = sel_len (selectInp q'))
                \<longrightarrow> nat (sel_len (selectInp q)) = n
                \<longrightarrow> (distinct (map ((!) labels) [0..<n])
                     \<and> list_all utf8_check_string (map ((!) labels) [0..<n]))
                \<longrightarrow> (\<forall>x\<in>set results. \<exists>ts. length ts = n
                       \<and> x = JObject (zip (map ((!) labels) [0..<n]) (map JString ts)))
                \<longrightarrow> (\<forall>x\<in>set (rows_of r). \<exists>ts. length ts = n
                       \<and> x = JObject (zip (map ((!) labels) [0..<n]) (map JString ts))))",
     OF _ assms], goal_cases)
  case (1 f conn q qo labels chunk_num results y)
  let ?T = "\<lambda>x. \<exists>ts. length ts = n
                \<and> x = JObject (zip (map ((!) labels) [0..<n]) (map JString ts))"
  let ?C = "\<lambda>conn. \<forall>k q'. status (replies conn k q') = 0 \<longrightarrow>
                   attriCnt (out (replies conn k q')) = sel_len (selectInp q')"
  let ?conn = "conn\<lparr>calls := Suc (calls conn)\<rparr>"
  let ?r = "replies conn (calls conn) q"
  show ?case
  proof (intro allI impI)
    fix r conn'
    assume y: "y = Inr (r, conn')"
    show "replies conn' = replies conn
           \<and> (?C conn \<longrightarrow> nat (sel_len (selectInp q)) = n
                \<longrightarrow> (distinct (map ((!) labels) [0..<n])
                     \<and> list_all utf8_check_string (map ((!) labels) [0..<n]))
                \<longrightarrow> (\<forall>x\<in>set results. ?T x) \<longrightarrow> (\<forall>x\<in>set (rows_of r). ?T x))"
    proof (cases "chunk_num = 0 \<or> 0 < out_continueInx qo")
      case False
      with 1(2) y show ?thesis by auto
    next
      case True
      note loop = True
      show ?thesis
      proof (cases "status ?r = CAT_NO_ROWS_FOUND")
        case True
        with 1(2) loop have "f ?conn q (out ?r) labels chunk_num results = Some y"
          by (simp add: rcGenQuery_def)
        from 1(1) [OF this] y show ?thesis by simp
      next
        case False
        note not_no_rows = False
        show ?thesis
        proof (cases "status ?r = 0")
          case False
          with 1(2) loop not_no_rows y show ?thesis
            by (auto simp: rcGenQuery_def)
        next
          case True
          note ok = True
          show ?thesis
          proof (cases "make_json_objects (out ?r) labels")
            case (Inl fault)
            with 1(2) loop not_no_rows ok y show ?thesis
              by (simp add: rcGenQuery_def)
          next
            case (Inr chunk_ptr)
            show ?thesis
            proof (cases chunk_ptr)
              case None
              with 1(2) loop not_no_rows ok y Inr show ?thesis
                by (auto simp: rcGenQuery_def)
            next
              case (Some chunk)
              with 1(2) loop not_no_rows ok Inr
              have call: "f ?conn (q\<lparr>in_continueInx := out_continueInx (out ?r)\<rparr>) (out ?r) labels
                      (Suc chunk_num) (results @ chunk) = Some y"
                by (simp add: rcGenQuery_def json_array_extend_def)
              have chunk: "\<forall>x\<in>set chunk. ?T x"
                if c: "?C conn" and n: "nat (sel_len (selectInp q)) = n"
                  and d: "(distinct (map ((!) labels) [0..<n])
                     \<and> list_all utf8_check_string (map ((!) labels) [0..<n]))"
              proof -
                have a: "nat (attriCnt (out ?r)) = n"
                  using c ok n by simp
                show ?thesis
                  by (rule make_json_objects_keys [OF Inr [unfolded Some]])
                    (use a d in auto)
              qed
              from 1(1) [OF call] y chunk show ?thesis
                by auto
            qed
          qed
        qed
      qed
    qed
  qed
qed

lemma do_query_returns:
  assumes "do_query conn q qo labels = Some (Inr (r, conn'))"
    and "\<forall>k q'. status (replies conn k q') = 0 \<longrightarrow>
           attriCnt (out (replies conn k q')) = sel_len (selectInp q')"
    and "nat (sel_len (selectInp q)) = n"
    and "(distinct (map ((!) labels) [0..<n])
                     \<and> list_all utf8_check_string (map ((!) labels) [0..<n]))"
  shows "replies conn' = replies conn"
    and "\<forall>x\<in>set (rows_of r). \<exists>ts. length ts = n
           \<and> x = JObject (zip (map ((!) labels) [0..<n]) (map JString ts))"
  using do_query_loop_returns [OF assms(1) [unfolded do_query_def], of n] assms(2-4)
  by simp_all

lemma add_query_conds_selectInp:
  assumes "add_query_conds_loop q conds is = Inr q'"
  shows "selectInp q' = selectInp q"
  using assms
  by (induction "is" arbitrary: q) (auto simp: Let_def split: if_splits)

lemma json_array_extend_rows:
  "json_array_extend results (json_ptr r) = (if json_ptr r = None then - 1 else 0, results @ rows_of r)"
  by (cases r) (simp_all add: json_array_extend_def)

text \<open>
  What \<^verbatim>\<open>search_metadata\<close> returns when both of its searches return. When the search
  for collections returns \<open>collections\<close> and the search for data objects after it
  returns \<open>data_objects\<close>, the result is the rows of the first followed by the rows of
  the second. When the catalogue answers with as many columns as a descriptor selects,
  every collection row is a record with the one key \<^verbatim>\<open>collection\<close> and every
  data-object row a record with the keys \<^verbatim>\<open>collection\<close> and \<^verbatim>\<open>data_object\<close>, in
  this order.
\<close>

lemma search_metadata_concatenates:
  assumes "make_query_input MAX_NUM_CONDITIONALS 10 1 [COL_COLL_NAME, COL_DATA_NAME] = Inr qc0"
    and "prepare_col_search qc0 attr_name attr_value = Inr qc"
    and "do_query conn qc query_output [''collection'', ''data_object''] =
           Some (Inr (collections, conn1))"
    and "make_query_input MAX_NUM_CONDITIONALS 10 2 [COL_COLL_NAME, COL_DATA_NAME] = Inr qd0"
    and "prepare_obj_search qd0 attr_name attr_value = Inr qd"
    and "do_query conn1 qd query_output [''collection'', ''data_object''] =
           Some (Inr (data_objects, conn2))"
    and "\<forall>k q'. status (replies conn k q') = 0 \<longrightarrow>
           attriCnt (out (replies conn k q')) = sel_len (selectInp q')"
  shows "search_metadata MAX_NUM_CONDITIONALS conn query_output attr_name attr_value =
           Some (Inr (rows_of collections @ rows_of data_objects, conn2))
         \<and> (\<forall>x\<in>set (rows_of collections). \<exists>c. x = JObject [(''collection'', JString c)])
         \<and> (\<forall>x\<in>set (rows_of data_objects).
               \<exists>c d. x = JObject [(''collection'', JString c), (''data_object'', JString d)])"
proof -
  let ?labels = "[''collection'', ''data_object'']"
  have result: "search_metadata MAX_NUM_CONDITIONALS conn query_output attr_name attr_value =
                  Some (Inr (rows_of collections @ rows_of data_objects, conn2))"
    using assms(1-6)
    by (simp add: search_metadata_def json_array_extend_rows)
  have c0: "sel_len (selectInp qc0) = 1" and d0: "sel_len (selectInp qd0) = 2"
    using assms(1,4) by (auto simp: make_query_input_def split: if_splits)
  have c: "nat (sel_len (selectInp qc)) = 1"
    using assms(2) c0
    by (simp add: prepare_col_search_def add_query_conds_def
          add_query_conds_selectInp [of qc0 _ _ qc])
  have d: "nat (sel_len (selectInp qd)) = 2"
    using assms(5) d0
    by (simp add: prepare_obj_search_def add_query_conds_def
          add_query_conds_selectInp [of qd0 _ _ qd])
  have l1: "distinct (map ((!) ?labels) [0..<1])
              \<and> list_all utf8_check_string (map ((!) ?labels) [0..<1])"
    and l2: "distinct (map ((!) ?labels) [0..<2])
              \<and> list_all utf8_check_string (map ((!) ?labels) [0..<2])"
    by code_simp+
  have same: "replies conn1 = replies conn"
    and coll: "\<forall>x\<in>set (rows_of collections). \<exists>ts. length ts = 1
                \<and> x = JObject (zip (map ((!) ?labels) [0..<1]) (map JString ts))"
    using do_query_returns [OF assms(3) assms(7) c l1] by blast+
  have objs: "\<forall>x\<in>set (rows_of data_objects). \<exists>ts. length ts = 2
                \<and> x = JObject (zip (map ((!) ?labels) [0..<2]) (map JString ts))"
    using do_query_returns(2) [OF assms(6) _ d l2] assms(7) same
    by simp
  have t1: "\<exists>c. x = JObject [(''collection'', JString c)]"
    if "x \<in> set (rows_of collections)" for x
  proof -
    from coll that obtain ts where "length ts = 1"
      "x = JObject (zip (map ((!) ?labels) [0..<1]) (map JString ts))"
      by blast
    then show ?thesis
      by (cases ts) auto
  qed
  have t2: "\<exists>c d. x = JObject [(''collection'', JString c), (''data_object'', JString d)]"
    if "x \<in> set (rows_of data_objects)" for x
  proof -
    from objs that obtain ts where "length ts = 2"
      "x = JObject (zip (map ((!) ?labels) [0..<2]) (map JString ts))"
      by blast
    then show ?thesis
      by (cases ts; cases "tl ts") (auto simp: numeral_2_eq_2)
  qed
  show ?thesis
    using result t1 t2 by blast
qed

lemma do_query_single_page:
  assumes "replies conn (calls conn) q = \<lparr>status = 0, out = p\<rparr>"
    and "wf_page labels p"
    and "out_continueInx p \<le> 0"
  shows "do_query conn q qo labels =
           Some (Inr (Query_Rows (page_records labels p), conn\<lparr>calls := Suc (calls conn)\<rparr>))"
proof -
  have "do_query conn q qo labels =
          do_query_loop (conn\<lparr>calls := Suc (calls conn)\<rparr>)
            (q\<lparr>in_continueInx := out_continueInx p\<rparr>) p labels (Suc 0)
            ([] @ page_records labels p)"
    unfolding do_query_def using assms(1,2) by (intro do_query_loop_page) auto
  also have "\<dots> = Some (Inr (Query_Rows ([] @ page_records labels p),
                             conn\<lparr>calls := Suc (calls conn)\<rparr>))"
    using assms(3) by (intro do_query_loop_exit) auto
  finally show ?thesis by simp
qed

lemma search_metadata_concatenates_example:
  "make_query_input 4 10 1 [COL_COLL_NAME, COL_DATA_NAME] = Inr example_query
   \<and> prepare_col_search example_query ''color'' ''red'' = Inr example_col_search
   \<and> do_query one_row_conn example_col_search example_page3 [''collection'', ''data_object''] =
       Some (Inr (Query_Rows [JObject [(''collection'', JString ''/z'')]],
                  one_row_conn\<lparr>calls := 1\<rparr>))
   \<and> make_query_input 4 10 2 [COL_COLL_NAME, COL_DATA_NAME] = Inr example_query2
   \<and> prepare_obj_search example_query2 ''color'' ''red'' = Inr example_obj_search
   \<and> do_query (one_row_conn\<lparr>calls := 1\<rparr>) example_obj_search example_page3
         [''collection'', ''data_object''] =
       Some (Inr (Query_Rows [JObject [(''collection'', JString ''/z''),
                                       (''data_object'', JString ''/z'')]],
                  one_row_conn\<lparr>calls := 2\<rparr>))
   \<and> (\<forall>k q'. attriCnt (out (replies one_row_conn k q')) = sel_len (selectInp q'))
   \<and> search_metadata 4 one_row_conn example_page3 ''color'' ''red'' =
       Some (Inr ([JObject [(''collection'', JString ''/z'')],
                   JObject [(''collection'', JString ''/z''), (''data_object'', JString ''/z'')]],
                  one_row_conn\<lparr>calls := 2\<rparr>))"
proof -
  let ?labels = "[''collection'', ''data_object'']"
  let ?p1 = "\<lparr>rowCnt = 1, attriCnt = 1, out_continueInx = 0,
             sqlResult = [\<lparr>len = 3, buf = [CHR ''/'', CHR ''z'', NUL]\<rparr>]\<rparr>"
  let ?p2 = "\<lparr>rowCnt = 1, attriCnt = 2, out_continueInx = 0,
             sqlResult = [\<lparr>len = 3, buf = [CHR ''/'', CHR ''z'', NUL]\<rparr>,
                          \<lparr>len = 3, buf = [CHR ''/'', CHR ''z'', NUL]\<rparr>]\<rparr>"
  have m1: "make_query_input 4 10 1 [COL_COLL_NAME, COL_DATA_NAME] = Inr example_query"
    by (simp add: make_query_input_def example_query_def numeral_eq_Suc)
  have m2: "make_query_input 4 10 2 [COL_COLL_NAME, COL_DATA_NAME] = Inr example_query2"
    by (simp add: make_query_input_def example_query2_def numeral_eq_Suc)
  have s1: "prepare_col_search example_query ''color'' ''red'' = Inr example_col_search"
    by (simp add: prepare_col_search_def add_query_conds_def snprintf_clause_def
          example_col_search_def example_query_def numeral_eq_Suc upt_rec)
  have s2: "prepare_obj_search example_query2 ''color'' ''red'' = Inr example_obj_search"
    by (simp add: prepare_obj_search_def add_query_conds_def snprintf_clause_def
          example_obj_search_def example_query2_def numeral_eq_Suc upt_rec)
  have r1: "replies one_row_conn (calls one_row_conn) example_col_search = \<lparr>status = 0, out = ?p1\<rparr>"
    by (simp add: one_row_conn_def example_col_search_def example_query_def)
  have r2: "replies (one_row_conn\<lparr>calls := 1\<rparr>) (calls (one_row_conn\<lparr>calls := 1\<rparr>))
              example_obj_search = \<lparr>status = 0, out = ?p2\<rparr>"
    by (simp add: one_row_conn_def example_obj_search_def example_query2_def numeral_eq_Suc)
  have w1: "wf_page ?labels ?p1"
    by code_simp
  have w2: "wf_page ?labels ?p2"
    by code_simp
  have g1: "page_records ?labels ?p1 = [JObject [(''collection'', JString ''/z'')]]"
    by code_simp
  have g2: "page_records ?labels ?p2 =
              [JObject [(''collection'', JString ''/z''), (''data_object'', JString ''/z'')]]"
    by code_simp
  have c: "calls one_row_conn = 0"
    by (simp add: one_row_conn_def)
  have q1: "do_query one_row_conn example_col_search example_page3 ?labels =
              Some (Inr (Query_Rows [JObject [(''collection'', JString ''/z'')]],
                         one_row_conn\<lparr>calls := 1\<rparr>))"
    using do_query_single_page [OF r1 w1, of example_page3] by (simp add: g1 c)
  have q2: "do_query (one_row_conn\<lparr>calls := 1\<rparr>) example_obj_search example_page3 ?labels =
              Some (Inr (Query_Rows [JObject [(''collection'', JString ''/z''),
                                              (''data_object'', JString ''/z'')]],
                         one_row_conn\<lparr>calls := 2\<rparr>))"
    using do_query_single_page [OF r2 w2, of example_page3] by (simp add: g2)
  have k: "\<forall>k q'. attriCnt (out (replies one_row_conn k q')) = sel_len (selectInp q')"
    by (simp add: one_row_conn_def)
  show ?thesis
    using search_metadata_concatenates [OF m1 s1 q1 m2 s2 q2] m1 s1 q1 m2 s2 q2 k
    by simp
qed

text \<open>
  C10, evaluated where the code departs from it. In the catalogue \<open>objects_only_conn\<close>
  no collection carries the attribute and the value, and one data object does. The
  search for collections is answered with \<^verbatim>\<open>CAT_NO_ROWS_FOUND\<close>, \<^verbatim>\<open>do_query\<close> stays
  in its loop as for C1, and \<^verbatim>\<open>search_metadata\<close> never reaches the search for data
  objects: it returns nothing, where the claim has it return the data object's row.
\<close>

theorem search_metadata_no_collection_never_returns:
  "search_metadata 4 objects_only_conn query_output attr_name attr_value = None"
proof -
  let ?conds = "[\<lparr>column = COL_META_COLL_ATTR_NAME, operator = ''='', qvalue = attr_name\<rparr>,
                 \<lparr>column = COL_META_COLL_ATTR_VALUE, operator = ''='', qvalue = attr_value\<rparr>]"
  have m: "make_query_input 4 10 1 [COL_COLL_NAME, COL_DATA_NAME] = Inr example_query"
    by (simp add: make_query_input_def example_query_def numeral_eq_Suc)
  obtain qc where s: "prepare_col_search example_query attr_name attr_value = Inr qc"
    using add_query_conds_closed [of example_query ?conds]
    by (simp add: prepare_col_search_def example_query_def)
  have "selectInp qc = selectInp example_query"
    using s by (simp add: prepare_col_search_def add_query_conds_def
        add_query_conds_selectInp [of example_query _ _ qc])
  then have "\<forall>k. status (replies objects_only_conn k qc) = CAT_NO_ROWS_FOUND"
    by (simp add: objects_only_conn_def example_query_def)
  then have "do_query objects_only_conn qc query_output [''collection'', ''data_object''] = None"
    by (rule do_query_no_rows_forever)
  then show ?thesis
    by (simp add: search_metadata_def m s)
qed

subsection \<open>Entity classifier\<close>

lemma strip_slashes_decomp:
  "\<exists>ss. p = strip_slashes p @ ss \<and> set ss \<subseteq> {slash}"
proof -
  have "rev p = takeWhile (\<lambda>c. c = slash) (rev p) @ dropWhile (\<lambda>c. c = slash) (rev p)"
    by simp
  then have "p = strip_slashes p @ rev (takeWhile (\<lambda>c. c = slash) (rev p))"
    unfolding strip_slashes_def by (metis rev_append rev_rev_ident)
  moreover have "set (rev (takeWhile (\<lambda>c. c = slash) (rev p))) \<subseteq> {slash}"
    by (auto dest: set_takeWhileD)
  ultimately show ?thesis by blast
qed

lemma strip_slashes_empty: "strip_slashes p = [] \<longleftrightarrow> set p \<subseteq> {slash}"
  by (auto simp: strip_slashes_def dropWhile_eq_Nil_conv)

lemma strip_slashes_last:
  assumes "strip_slashes p \<noteq> []"
  shows "last (strip_slashes p) \<noteq> slash"
proof -
  have "dropWhile (\<lambda>c. c = slash) (rev p) \<noteq> []"
    using assms by (simp add: strip_slashes_def)
  then have "hd (dropWhile (\<lambda>c. c = slash) (rev p)) \<noteq> slash"
    using hd_dropWhile [of "\<lambda>c. c = slash" "rev p"] by simp
  then show ?thesis
    using assms by (simp add: strip_slashes_def last_rev)
qed

lemma path_parts_slash:
  "path_parts cur (xs @ slash # ys) = path_parts cur xs @ path_parts [] ys"
  by (induction xs arbitrary: cur) simp_all

lemma path_parts_no_slash:
  "slash \<notin> set xs \<Longrightarrow> path_parts cur xs = (if cur @ xs = [] then [] else [cur @ xs])"
  by (induction xs arbitrary: cur) auto

lemma path_parts_slashes: "set ss \<subseteq> {slash} \<Longrightarrow> path_parts [] ss = []"
  by (induction ss) auto

lemma path_parts_trailing:
  "set ss \<subseteq> {slash} \<Longrightarrow> path_parts cur (xs @ ss) = path_parts cur xs"
proof (cases ss)
  case Nil
  then show ?thesis by simp
next
  case (Cons s ss')
  assume "set ss \<subseteq> {slash}"
  with Cons have "s = slash" "set ss' \<subseteq> {slash}" by auto
  then show ?thesis
    unfolding Cons by (simp add: path_parts_slash path_parts_slashes)
qed

text \<open>
  The leaf and the rest of a path that has a character other than the slash, after
  its trailing slashes are taken off.
\<close>

lemma leaf_decomp:
  assumes "q \<noteq> []" and "last q \<noteq> slash"
  shows "q = rev (dropWhile (\<lambda>c. c \<noteq> slash) (rev q)) @ rev (takeWhile (\<lambda>c. c \<noteq> slash) (rev q))"
    and "rev (takeWhile (\<lambda>c. c \<noteq> slash) (rev q)) \<noteq> []"
    and "slash \<notin> set (rev (takeWhile (\<lambda>c. c \<noteq> slash) (rev q)))"
    and "rev (dropWhile (\<lambda>c. c \<noteq> slash) (rev q)) \<noteq> [] \<Longrightarrow>
           last (rev (dropWhile (\<lambda>c. c \<noteq> slash) (rev q))) = slash"
proof -
  let ?l = "rev (takeWhile (\<lambda>c. c \<noteq> slash) (rev q))"
  let ?d = "rev (dropWhile (\<lambda>c. c \<noteq> slash) (rev q))"
  have "rev q = takeWhile (\<lambda>c. c \<noteq> slash) (rev q) @ dropWhile (\<lambda>c. c \<noteq> slash) (rev q)"
    by simp
  then show "q = ?d @ ?l"
    by (metis rev_append rev_rev_ident)
  have "hd (rev q) \<noteq> slash"
    using assms(1,2) by (simp add: hd_rev)
  then show "?l \<noteq> []"
    using assms(1) by (cases "rev q") auto
  show "slash \<notin> set ?l"
    by (auto dest: set_takeWhileD)
  show "last ?d = slash" if "?d \<noteq> []"
  proof -
    have "dropWhile (\<lambda>c. c \<noteq> slash) (rev q) \<noteq> []"
      using that by simp
    then have "hd (dropWhile (\<lambda>c. c \<noteq> slash) (rev q)) = slash"
      using hd_dropWhile [of "\<lambda>c. c \<noteq> slash" "rev q"] by simp
    then show ?thesis
      using that by (simp add: last_rev)
  qed
qed

lemma take1_append: "xs \<noteq> [] \<Longrightarrow> take 1 (xs @ ys) = take 1 xs"
  by (cases xs) auto

lemma data_object_path_to_json_eq:
  "data_object_path_to_json p =
     (if utf8_check_string (dirname p) \<and> utf8_check_string (basename p)
      then Some (JObject [(''collection'', JString (dirname p)),
                          (''data_object'', JString (basename p))])
      else None)"
proof -
  have k: "utf8_check_string ''collection'' = True" "utf8_check_string ''data_object'' = True"
    by code_simp+
  show ?thesis
    by (cases "utf8_check_string (dirname p)"; cases "utf8_check_string (basename p)")
      (simp_all add: data_object_path_to_json_def json_string_def Let_def k
        del: utf8_check_string.simps)
qed

lemma dirname_basename_normal:
  assumes "\<exists>c\<in>set p. c \<noteq> slash"
  shows "slash \<notin> set (basename p)"
    and "normal_path (dirname p @ [slash] @ basename p) = normal_path p"
proof -
  let ?q = "strip_slashes p"
  let ?l = "rev (takeWhile (\<lambda>c. c \<noteq> slash) (rev ?q))"
  let ?d = "rev (dropWhile (\<lambda>c. c \<noteq> slash) (rev ?q))"
  have p_ne: "p \<noteq> []" and q_ne: "?q \<noteq> []"
    using assms by (auto simp: strip_slashes_empty)
  obtain ss where p: "p = ?q @ ss" and ss: "set ss \<subseteq> {slash}"
    using strip_slashes_decomp by blast
  note leaf = leaf_decomp [OF q_ne strip_slashes_last [OF q_ne]]
  have base: "basename p = ?l"
    using p_ne q_ne by (simp add: basename_def)
  show "slash \<notin> set (basename p)"
    unfolding base by (rule leaf(3))
  have parts_l: "path_parts [] ?l = [?l]"
    using leaf(2,3) by (simp add: path_parts_no_slash)
  have parts_p: "path_parts [] p = path_parts [] (?d @ ?l)"
    using path_parts_trailing [OF ss, of "[]" ?q] p leaf(1) by simp
  have take_p: "take 1 p = take 1 (?d @ ?l)"
  proof -
    have "take 1 p = take 1 (?q @ ss)"
      by (simp only: p [symmetric])
    also have "\<dots> = take 1 ?q"
      using q_ne by (rule take1_append)
    also have "\<dots> = take 1 (?d @ ?l)"
      by (simp only: leaf(1) [symmetric])
    finally show ?thesis .
  qed
  show "normal_path (dirname p @ [slash] @ basename p) = normal_path p"
  proof (cases "?d = []")
    case True
    then have dir: "dirname p = ''.''"
      using p_ne q_ne by (simp add: dirname_def Let_def)
    have "hd ?l \<noteq> slash"
      using leaf(2,3) by (metis list.set_sel(1))
    then have "take 1 ?l \<noteq> [slash]"
      using leaf(2) by (cases ?l) auto
    then show ?thesis
      unfolding normal_path_def base dir parts_p take_p True
      using parts_l by (simp add: slash_def path_parts_slash [unfolded slash_def]
          path_parts_no_slash [unfolded slash_def])
  next
    case False
    then obtain d0 where d: "?d = d0 @ [slash]"
      using leaf(4) by (metis append_butlast_last_id)
    have parts_dl: "path_parts [] (?d @ ?l) = path_parts [] d0 @ [?l]"
      unfolding d using parts_l by (simp add: path_parts_slash)
    obtain ds where dd: "?d = strip_slashes ?d @ ds" and ds: "set ds \<subseteq> {slash}"
      using strip_slashes_decomp by blast
    have parts_d: "path_parts [] (strip_slashes ?d) = path_parts [] d0"
    proof -
      have "path_parts [] ?d = path_parts [] (strip_slashes ?d)"
        using path_parts_trailing [OF ds, of "[]" "strip_slashes ?d"] dd by simp
      moreover have "path_parts [] ?d = path_parts [] d0"
        unfolding d using path_parts_trailing [of "[slash]" "[]" d0] by simp
      ultimately show ?thesis by simp
    qed
    show ?thesis
    proof (cases "strip_slashes ?d = []")
      case True
      then have dir: "dirname p = [slash]"
        using p_ne q_ne False by (auto simp: dirname_def Let_def)
      have all: "set ?d \<subseteq> {slash}"
        using True by (simp add: strip_slashes_empty)
      then have "hd ?d = slash"
        using False by (metis hd_in_set singletonD subsetD)
      then have abs: "take 1 (?d @ ?l) = [slash]"
        using False by (cases ?d) auto
      have "path_parts [] d0 = []"
        using parts_d True by simp
      then show ?thesis
        unfolding normal_path_def base dir parts_p take_p parts_dl abs
        using parts_l by simp
    next
      case nonempty: False
      then have dir: "dirname p = strip_slashes ?d"
        using p_ne q_ne False by (auto simp: dirname_def Let_def)
      have "take 1 (strip_slashes ?d @ [slash] @ ?l) = take 1 (strip_slashes ?d)"
        using nonempty by (rule take1_append)
      moreover have "take 1 (?d @ ?l) = take 1 (strip_slashes ?d)"
      proof -
        have "?d @ ?l = strip_slashes ?d @ (ds @ ?l)"
          by (simp only: append_assoc [symmetric] dd [symmetric])
        then have "take 1 (?d @ ?l) = take 1 (strip_slashes ?d @ (ds @ ?l))"
          by (simp only:)
        also have "\<dots> = take 1 (strip_slashes ?d)"
          using nonempty by (rule take1_append)
        finally show ?thesis .
      qed
      moreover have "path_parts [] (strip_slashes ?d @ [slash] @ ?l) = path_parts [] d0 @ [?l]"
        using parts_l parts_d by (simp add: path_parts_slash)
      ultimately show ?thesis
        unfolding normal_path_def base dir parts_p take_p parts_dl by simp
    qed
  qed
qed

text \<open>
  For a canonical path, a parent that does not end in a slash followed by a slash and
  a leaf name, the decomposition is exact.
\<close>

lemma takeWhile_upto_slash:
  "slash \<notin> set xs \<Longrightarrow> takeWhile (\<lambda>c. c \<noteq> slash) (xs @ slash # ys) = xs"
  by (induction xs) auto

lemma dropWhile_upto_slash:
  "slash \<notin> set xs \<Longrightarrow> dropWhile (\<lambda>c. c \<noteq> slash) (xs @ slash # ys) = slash # ys"
  by (induction xs) auto

lemma dirname_basename_exact:
  assumes "d \<noteq> []" and "last d \<noteq> slash" and "l \<noteq> []" and "slash \<notin> set l"
  shows "dirname (d @ [slash] @ l) = d" and "basename (d @ [slash] @ l) = l"
proof -
  let ?p = "d @ [slash] @ l"
  have hl: "hd (rev l) \<noteq> slash"
    using assms(3,4) by (metis hd_rev last_in_set)
  have hd: "hd (rev d) \<noteq> slash"
    using assms(1,2) by (simp add: hd_rev)
  have strip: "strip_slashes ?p = ?p"
    using hl assms(3) by (cases "rev l") (auto simp: strip_slashes_def)
  have tw: "takeWhile (\<lambda>c. c \<noteq> slash) (rev ?p) = rev l"
    using assms(4) by (simp add: takeWhile_upto_slash)
  have dw: "dropWhile (\<lambda>c. c \<noteq> slash) (rev ?p) = slash # rev d"
    using assms(4) by (simp add: dropWhile_upto_slash)
  have sd: "strip_slashes (d @ [slash]) = d"
    using hd assms(1) by (cases "rev d") (auto simp: strip_slashes_def)
  show "basename ?p = l"
    unfolding basename_def strip Let_def tw using assms(3) by simp
  show "dirname ?p = d"
    unfolding dirname_def strip Let_def dw using assms(1) sd by simp
qed

text \<open>
  C9. For a path with a character other than the slash (every path but the empty
  path and the root), the parent \<^verbatim>\<open>dirname\<close> and the leaf \<^verbatim>\<open>basename\<close> are what
  \<^verbatim>\<open>data_object_path_to_json\<close> puts into its object, which it returns when both are
  well-formed UTF-8 and in place of which it returns \<^verbatim>\<open>NULL\<close> otherwise; the leaf has
  no slash in it, and the parent, a slash and the leaf make the path again up to
  normalization.
\<close>

theorem data_object_path_decomposition:
  assumes "\<exists>c\<in>set p. c \<noteq> slash"
  shows "data_object_path_to_json p =
           (if utf8_check_string (dirname p) \<and> utf8_check_string (basename p)
            then Some (JObject [(''collection'', JString (dirname p)),
                                (''data_object'', JString (basename p))])
            else None)
         \<and> slash \<notin> set (basename p)
         \<and> normal_path (dirname p @ [slash] @ basename p) = normal_path p"
  using dirname_basename_normal [OF assms] data_object_path_to_json_eq [of p]
  by (simp del: utf8_check_string.simps)

theorem data_object_path_decomposition_witness:
  "(\<exists>c\<in>set ''/zone/home/f.txt''. c \<noteq> slash)
   \<and> data_object_path_to_json ''/zone/home/f.txt'' =
       Some (JObject [(''collection'', JString ''/zone/home''),
                      (''data_object'', JString ''f.txt'')])
   \<and> slash \<notin> set ''f.txt''
   \<and> normal_path (''/zone/home'' @ [slash] @ ''f.txt'') = normal_path ''/zone/home/f.txt''
   \<and> (\<exists>c\<in>set ''/f.txt''. c \<noteq> slash)
   \<and> data_object_path_to_json ''/f.txt'' =
       Some (JObject [(''collection'', JString ''/''), (''data_object'', JString ''f.txt'')])
   \<and> normal_path (''/'' @ [slash] @ ''f.txt'') = normal_path ''/f.txt''
   \<and> (\<exists>c\<in>set [CHR ''/'', CHR 0xE9]. c \<noteq> slash)
   \<and> data_object_path_to_json [CHR ''/'', CHR 0xE9] = None"
proof -
  have d1: "dirname ''/zone/home/f.txt'' = ''/zone/home''"
    and b1: "basename ''/zone/home/f.txt'' = ''f.txt''"
    and d2: "dirname ''/f.txt'' = ''/''"
    and b2: "basename ''/f.txt'' = ''f.txt''"
    and d3: "dirname [CHR ''/'', CHR 0xE9] = ''/''"
    and b3: "basename [CHR ''/'', CHR 0xE9] = [CHR 0xE9]"
    by code_simp+
  have u: "utf8_check_string ''/zone/home'' = True" "utf8_check_string ''f.txt'' = True"
    "utf8_check_string ''/'' = True" "utf8_check_string [CHR 0xE9] = False"
    by code_simp+
  have e: "\<exists>c\<in>set ''/zone/home/f.txt''. c \<noteq> slash" "\<exists>c\<in>set ''/f.txt''. c \<noteq> slash"
    "\<exists>c\<in>set [CHR ''/'', CHR 0xE9]. c \<noteq> slash"
    by code_simp+
  show ?thesis
    using data_object_path_decomposition [OF e(1)] data_object_path_decomposition [OF e(2)]
      data_object_path_decomposition [OF e(3)] e
    unfolding d1 b1 d2 b2 d3 b3 u by (simp del: utf8_check_string.simps)
qed

end
